theory Spec2Isabelle
  imports Complex_Main
begin

section \<open>Python values and errors\<close>

text \<open>
  The module \<^verbatim>\<open>KML_to_mask.py\<close> computes with Python floats and integers.  Floats are
  modelled by the real numbers (no rounding, no overflow, no NaN); every exception the
  code can raise on the way is a value of \<open>py_error\<close>, returned as \<open>Inl\<close>.
\<close>

datatype py_error =
    ZeroDivisionError
  | ValueError
  | IndexError
  | NameError string
  | TypeError
  | NonFinite

section \<open>Projection math\<close>

text \<open>\<^verbatim>\<open>def calc_c_zoom(zoom): return 360 / (2 ** (zoom - 1))\<close>\<close>

definition calc_c_zoom :: "int \<Rightarrow> real" where
  "calc_c_zoom zoom = 360 / (2 powi (zoom - 1))"

text \<open>\<^verbatim>\<open>def angle_lat(lat): return lat * math.pi / 180\<close>\<close>

definition angle_lat :: "real \<Rightarrow> real" where
  "angle_lat lat = lat * pi / 180"

text \<open>\<^verbatim>\<open>def long_degrees_per_pixel(zoom, long): return (calc_c_zoom(zoom) / 512)\<close>\<close>

definition long_degrees_per_pixel :: "int \<Rightarrow> real \<Rightarrow> real" where
  "long_degrees_per_pixel zoom long = calc_c_zoom zoom / 512"

text \<open>\<^verbatim>\<open>return calc_c_zoom(zoom) / 512 * np.cos(lat_angle)\<close>\<close>

definition lat_degrees_per_pixel :: "int \<Rightarrow> real \<Rightarrow> real" where
  "lat_degrees_per_pixel zoom lat =
     (let lat_angle = angle_lat lat in calc_c_zoom zoom / 512 * cos lat_angle)"

definition long_degrees_per_img :: "int \<Rightarrow> real \<Rightarrow> nat \<Rightarrow> real" where
  "long_degrees_per_img zoom long sz = long_degrees_per_pixel zoom long * real sz"

definition lat_degrees_per_img :: "int \<Rightarrow> real \<Rightarrow> nat \<Rightarrow> real" where
  "lat_degrees_per_img zoom lat sz = lat_degrees_per_pixel zoom lat * real sz"

text \<open>
  \<^verbatim>\<open>return 180 / math.pi * math.log(1 / math.cos(lat_angle) + math.tan(lat_angle))\<close>

  The division raises when the cosine is zero, and \<^verbatim>\<open>math.log\<close> raises a
  \<^verbatim>\<open>ValueError\<close> on an argument that is not positive.
\<close>

definition norm_lat :: "real \<Rightarrow> py_error + real" where
  "norm_lat lat =
     (let lat_angle = angle_lat lat in
      if cos lat_angle = 0 then Inl ZeroDivisionError
      else let v = 1 / cos lat_angle + tan lat_angle in
        if v \<le> 0 then Inl ValueError
        else Inr (180 / pi * ln v))"

section \<open>Tile center solver\<close>

text \<open>
  The \<^verbatim>\<open>while abs(diff) > 10 ** -9\<close> loop of \<^verbatim>\<open>get_exact_map_lat\<close>.  The source
  has no iteration counter; the model counts the executions of the loop body with a
  fuel argument, and \<open>None\<close> is a run that is still inside the loop when the fuel is
  used up.  To say that the Python loop stops is to say that some fuel gives \<open>Some\<close>.
  The operands of
  \<^verbatim>\<open>diff / n_map_lat_int * math.cos(angle_lat(lat)) / lat * norm_lat(lat)\<close>
  are evaluated from left to right, so the first failing one decides the exception.
\<close>

fun lat_loop :: "nat \<Rightarrow> real \<Rightarrow> real \<Rightarrow> real \<Rightarrow> real \<Rightarrow> (py_error + real) option" where
  "lat_loop 0 C_zoom n_map_lat_int lat diff =
     (if \<bar>diff\<bar> > 10 powi (- 9) then None else Some (Inr lat))"
| "lat_loop (Suc fuel) C_zoom n_map_lat_int lat diff =
     (if \<bar>diff\<bar> > 10 powi (- 9) then
        if n_map_lat_int = 0 then Some (Inl ZeroDivisionError)
        else if lat = 0 then Some (Inl ZeroDivisionError)
        else (case norm_lat lat of
                Inl e \<Rightarrow> Some (Inl e)
              | Inr nl \<Rightarrow>
                  (let ratio = diff / n_map_lat_int * cos (angle_lat lat) / lat * nl;
                       lat' = lat * (1 - ratio)
                   in (case norm_lat lat' of
                         Inl e \<Rightarrow> Some (Inl e)
                       | Inr nl' \<Rightarrow>
                           lat_loop fuel C_zoom n_map_lat_int lat'
                             (nl' / C_zoom - n_map_lat_int))))
      else Some (Inr lat))"

text \<open>
  \<^verbatim>\<open>get_exact_map_lat(lat, zoom)\<close>; \<^verbatim>\<open>// 1\<close> is the floor.  The result is the
  converged latitude moved up by half the latitude span of a 512 pixel image.
\<close>

definition get_exact_map_lat :: "nat \<Rightarrow> real \<Rightarrow> int \<Rightarrow> (py_error + real \<times> real) option" where
  "get_exact_map_lat fuel lat zoom =
     (let C_zoom = calc_c_zoom zoom in
      case norm_lat lat of
        Inl e \<Rightarrow> Some (Inl e)
      | Inr nl \<Rightarrow>
          (let n_map_lat = nl / C_zoom;
               n_map_lat_int = of_int \<lfloor>n_map_lat\<rfloor>;
               diff = n_map_lat - n_map_lat_int
           in (case lat_loop fuel C_zoom n_map_lat_int lat diff of
                 None \<Rightarrow> None
               | Some (Inl e) \<Rightarrow> Some (Inl e)
               | Some (Inr lat') \<Rightarrow>
                   Some (Inr (lat' + lat_degrees_per_img zoom lat' 512 / 2, n_map_lat_int)))))"


section \<open>Polygons\<close>

text \<open>
  A polygon reaches the core as the array \<^verbatim>\<open>get_polygon_coords\<close> reads from its KML
  element: one row \<open>(long, lat)\<close> per vertex.  The KML parsing itself is outside the
  model, so a polygon is that list of rows.
\<close>

type_synonym polygon = "(real \<times> real) list"

definition get_polygon_coords :: "polygon \<Rightarrow> (real \<times> real) list" where
  "get_polygon_coords polygon = polygon"

text \<open>
  \<^verbatim>\<open>coords.min(axis=0)\<close> and \<^verbatim>\<open>coords.max(axis=0)\<close>; NumPy raises a
  \<^verbatim>\<open>ValueError\<close> on an array without rows.
\<close>

fun list_min :: "real list \<Rightarrow> real" where
  "list_min [] = 0"
| "list_min (x # xs) = fold min xs x"

fun list_max :: "real list \<Rightarrow> real" where
  "list_max [] = 0"
| "list_max (x # xs) = fold max xs x"

definition get_polygon_bbox :: "polygon \<Rightarrow> py_error + real \<times> real \<times> real \<times> real" where
  "get_polygon_bbox polygon =
     (let coords = get_polygon_coords polygon in
      if coords = [] then Inl ValueError
      else (let left = list_min (map fst coords); bottom = list_min (map snd coords);
                right = list_max (map fst coords); top' = list_max (map snd coords)
            in Inr (top', left, bottom, right)))"

definition get_polygon_center :: "polygon \<Rightarrow> py_error + real \<times> real" where
  "get_polygon_center polygon =
     (case get_polygon_bbox polygon of
        Inl e \<Rightarrow> Inl e
      | Inr (top', left, bottom, right) \<Rightarrow> Inr ((top' + bottom) / 2, (left + right) / 2))"

section \<open>Polygon rasterizer\<close>

text \<open>
  The first half of \<^verbatim>\<open>obj_to_mask\<close>: the vertex coordinates in pixels, before
  \<^verbatim>\<open>astype(np.int32)\<close>.  \<open>lat, long\<close> is the center of the polygon's own bounding
  box; \<^verbatim>\<open>size / long_degrees_per_img(...)\<close> divides Python floats and raises on zero
  (size 0); \<^verbatim>\<open>size / lat_degrees_per_img(...)\<close> divides by a NumPy float, which on
  zero continues with \<^verbatim>\<open>inf\<close> instead of raising: the real-number model has no such
  value and answers \<open>NonFinite\<close> there.
\<close>

definition obj_to_mask_coords ::
  "polygon \<Rightarrow> real \<Rightarrow> real \<Rightarrow> int \<Rightarrow> nat \<Rightarrow> py_error + (real \<times> real) list" where
  "obj_to_mask_coords polygon exact_map_lat exact_map_long zoom sz =
     (let coords = get_polygon_coords polygon in
      case get_polygon_center polygon of
        Inl e \<Rightarrow> Inl e
      | Inr (lat, long) \<Rightarrow>
          (let top' = exact_map_lat + lat_degrees_per_img zoom exact_map_lat sz / 2;
               left = exact_map_long - long_degrees_per_img zoom exact_map_long sz / 2
           in if long_degrees_per_img zoom long sz = 0 then Inl ZeroDivisionError
              else if lat_degrees_per_img zoom lat sz = 0 then Inl NonFinite
              else Inr (map (\<lambda>(x, y).
                     ((x - left) * (real sz / long_degrees_per_img zoom long sz),
                      (top' - y) * (real sz / lat_degrees_per_img zoom lat sz))) coords)))"

text \<open>
  \<^verbatim>\<open>astype(np.int32)\<close> truncates toward zero (the model keeps the truncation also
  beyond the 32 bit range).
\<close>

definition astype_int32 :: "real \<Rightarrow> int" where
  "astype_int32 x = (if 0 \<le> x then \<lfloor>x\<rfloor> else \<lceil>x\<rceil>)"

text \<open>
  \<^verbatim>\<open>cv2.drawContours(mask_jpg, [coords], 0, (0, 0, 255), -1)\<close> paints the filled
  contour into a zero array and \<^verbatim>\<open>mask_jpg[:, :, 2]\<close> reads the channel that got
  255.  OpenCV is not part of the repository: which pixels \<open>(x, y)\<close> it paints for a
  contour is the parameter \<open>drawn\<close>.  A mask is the list of its rows; a pixel is 0 or
  255.
\<close>

type_synonym mask = "nat list list"

definition obj_to_mask ::
  "((int \<times> int) list \<Rightarrow> int \<times> int \<Rightarrow> bool) \<Rightarrow> polygon \<Rightarrow> real \<Rightarrow> real \<Rightarrow> int \<Rightarrow> nat
     \<Rightarrow> py_error + mask" where
  "obj_to_mask drawn polygon exact_map_lat exact_map_long zoom sz =
     (case obj_to_mask_coords polygon exact_map_lat exact_map_long zoom sz of
        Inl e \<Rightarrow> Inl e
      | Inr coords \<Rightarrow>
          (let pts = map (\<lambda>(x, y). (astype_int32 x, astype_int32 y)) coords
           in Inr (map (\<lambda>row. map (\<lambda>col. if drawn pts (int col, int row) then 255 else 0)
                                  [0..<sz]) [0..<sz])))"

section \<open>Tile-polygon assignment\<close>










text \<open>A mask has a nonzero pixel.\<close>

definition nonzero_pixel :: "mask \<Rightarrow> bool" where
  "nonzero_pixel m = list_ex (\<lambda>row. list_ex (\<lambda>p. p \<noteq> 0) row) m"

section \<open>A reference painter for the examples\<close>

text \<open>
  The theorems hold for every painter \<open>drawn\<close>.  To run the model on concrete polygons
  the examples use this one: a pixel is painted when it lies on an edge of the closed
  contour, or inside it by the even-odd rule (a ray to the right crosses an odd number
  of edges).
\<close>

definition on_segment :: "int \<times> int \<Rightarrow> (int \<times> int) \<times> (int \<times> int) \<Rightarrow> bool" where
  "on_segment p e =
     (case (p, e) of ((px, py), ((ax, ay), (bx, by))) \<Rightarrow>
        (bx - ax) * (py - ay) = (by - ay) * (px - ax) \<and>
        min ax bx \<le> px \<and> px \<le> max ax bx \<and> min ay by \<le> py \<and> py \<le> max ay by)"

definition crosses_ray :: "int \<times> int \<Rightarrow> (int \<times> int) \<times> (int \<times> int) \<Rightarrow> bool" where
  "crosses_ray p e =
     (case (p, e) of ((px, py), ((ax, ay), (bx, by))) \<Rightarrow>
        ((py < ay) \<noteq> (py < by)) \<and>
        (if ay < by then (px - ax) * (by - ay) < (bx - ax) * (py - ay)
         else (bx - ax) * (py - ay) < (px - ax) * (by - ay)))"

definition even_odd_fill :: "(int \<times> int) list \<Rightarrow> int \<times> int \<Rightarrow> bool" where
  "even_odd_fill pts p =
     (let edges = zip pts (rotate1 pts)
      in list_ex (on_segment p) edges \<or> odd (length (filter (crosses_ray p) edges)))"


section \<open>Module namespaces\<close>

text \<open>
  A Python function looks a free name up in the global namespace of the module that
  defines it, then in the builtins; a name bound in neither raises \<^verbatim>\<open>NameError\<close>.
  \<open>KML_to_mask_globals\<close> holds the names \<^verbatim>\<open>KML_to_mask.py\<close> binds at top level: its
  imports and its functions.  \<open>main_globals\<close> is the namespace of \<^verbatim>\<open>main.py\<close> as far as
  it matters here: the names it imports from \<^verbatim>\<open>KML_to_mask\<close> and its own
  \<^verbatim>\<open>zoom = 17\<close> and \<^verbatim>\<open>size = 640\<close>.
\<close>

datatype py_value = Module | Callable | FloatVal real | IntVal int

definition KML_to_mask_globals :: "string \<rightharpoonup> py_value" where
  "KML_to_mask_globals = map_of
     [(''requests'', Module), (''BytesIO'', Callable), (''math'', Module),
      (''log'', Callable), (''exp'', Callable), (''tan'', Callable), (''pi'', FloatVal pi),
      (''Image'', Module), (''sys'', Module), (''os'', Module), (''json'', Module),
      (''np'', Module), (''cv2'', Module), (''hashlib'', Module), (''pickle'', Module),
      (''ET'', Module),
      (''get_placemarks'', Callable), (''get_polygon_coords'', Callable),
      (''get_polygon_bbox'', Callable), (''get_polygon_center'', Callable),
      (''get_map_for_POI'', Callable), (''download_google_maps_by_center'', Callable),
      (''calc_c_zoom'', Callable), (''angle_lat'', Callable),
      (''long_degrees_per_pixel'', Callable), (''lat_degrees_per_pixel'', Callable),
      (''long_degrees_per_img'', Callable), (''lat_degrees_per_img'', Callable),
      (''norm_lat'', Callable), (''get_exact_map_lat'', Callable),
      (''get_exact_map_long'', Callable), (''gl_map_by_center'', Callable),
      (''obj_to_mask'', Callable), (''read_kml_and_load_maps'', Callable),
      (''remove_masks_with_ovelapping_pixels'', Callable),
      (''remove_mask_duplicates'', Callable), (''make_masks'', Callable)]"

definition main_globals :: "string \<rightharpoonup> py_value" where
  "main_globals = KML_to_mask_globals(''zoom'' \<mapsto> IntVal 17, ''size'' \<mapsto> IntVal 640)"

definition builtin_names :: "string list" where
  "builtin_names =
     [''abs'', ''all'', ''any'', ''ascii'', ''bin'', ''bool'', ''bytearray'', ''bytes'',
      ''callable'', ''chr'', ''classmethod'', ''complex'', ''delattr'', ''dict'', ''dir'',
      ''divmod'', ''enumerate'', ''filter'', ''float'', ''format'', ''frozenset'',
      ''getattr'', ''globals'', ''hasattr'', ''hash'', ''help'', ''hex'', ''id'', ''input'',
      ''int'', ''isinstance'', ''issubclass'', ''iter'', ''len'', ''list'', ''locals'',
      ''map'', ''max'', ''memoryview'', ''min'', ''next'', ''object'', ''oct'', ''open'',
      ''ord'', ''pow'', ''print'', ''property'', ''range'', ''repr'', ''reversed'',
      ''round'', ''set'', ''setattr'', ''slice'', ''sorted'', ''staticmethod'', ''str'',
      ''sum'', ''super'', ''tuple'', ''type'', ''vars'', ''zip'']"

definition lookup_global :: "(string \<rightharpoonup> py_value) \<Rightarrow> string \<Rightarrow> py_error + py_value" where
  "lookup_global genv name =
     (case genv name of
        Some v \<Rightarrow> Inr v
      | None \<Rightarrow> if name \<in> set builtin_names then Inr Callable else Inl (NameError name))"

text \<open>
  The value of a global used as \<^verbatim>\<open>zoom\<close> or \<^verbatim>\<open>size\<close>.  The model computes with an
  integer there; any other kind of value is reported as \<open>TypeError\<close>.
\<close>

definition lookup_int :: "(string \<rightharpoonup> py_value) \<Rightarrow> string \<Rightarrow> py_error + int" where
  "lookup_int genv name =
     (case lookup_global genv name of
        Inl e \<Rightarrow> Inl e
      | Inr (IntVal i) \<Rightarrow> Inr i
      | Inr _ \<Rightarrow> Inl TypeError)"

section \<open>Polygon-level deduplication\<close>

text \<open>\<^verbatim>\<open>np.logical_and(old_mask, new_mask).any()\<close> on the masks cast to booleans.\<close>

definition masks_overlap :: "mask \<Rightarrow> mask \<Rightarrow> bool" where
  "masks_overlap old_mask new_mask =
     list_ex (\<lambda>(r1, r2). list_ex (\<lambda>(p, q). p \<noteq> 0 \<and> q \<noteq> 0) (zip r1 r2))
       (zip old_mask new_mask)"

text \<open>
  \<^verbatim>\<open>for new in new_list:\<close> rasterizes every kept polygon around the center of
  \<open>old\<close> and sets \<open>overlap\<close> on a common pixel; it does not break.
\<close>

fun overlap_loop ::
  "((int \<times> int) list \<Rightarrow> int \<times> int \<Rightarrow> bool) \<Rightarrow> real \<Rightarrow> real \<Rightarrow> int \<Rightarrow> nat \<Rightarrow> mask
     \<Rightarrow> polygon list \<Rightarrow> bool \<Rightarrow> py_error + bool" where
  "overlap_loop drawn lat long zoom sz old_mask [] overlap = Inr overlap"
| "overlap_loop drawn lat long zoom sz old_mask (new # new_list) overlap =
     (case obj_to_mask drawn new lat long zoom sz of
        Inl e \<Rightarrow> Inl e
      | Inr new_mask \<Rightarrow>
          overlap_loop drawn lat long zoom sz old_mask new_list
            (if masks_overlap old_mask new_mask then True else overlap))"

text \<open>
  \<^verbatim>\<open>for i, old in enumerate(old_list):\<close>  The arguments of
  \<^verbatim>\<open>obj_to_mask(old, lat, long, zoom, size)\<close> are evaluated from left to right:
  \<^verbatim>\<open>zoom\<close> and \<^verbatim>\<open>size\<close> are free names of the function, looked up in the globals
  \<open>genv\<close> of its module (a negative size makes \<^verbatim>\<open>np.zeros\<close> raise).
\<close>

fun dedup_loop ::
  "(string \<rightharpoonup> py_value) \<Rightarrow> ((int \<times> int) list \<Rightarrow> int \<times> int \<Rightarrow> bool)
     \<Rightarrow> polygon list \<Rightarrow> polygon list \<Rightarrow> py_error + polygon list" where
  "dedup_loop genv drawn [] new_list = Inr new_list"
| "dedup_loop genv drawn (old # old_list) new_list =
     (case get_polygon_center old of
        Inl e \<Rightarrow> Inl e
      | Inr (lat, long) \<Rightarrow>
          (case lookup_int genv ''zoom'' of
             Inl e \<Rightarrow> Inl e
           | Inr zoom \<Rightarrow>
               (case lookup_int genv ''size'' of
                  Inl e \<Rightarrow> Inl e
                | Inr sz \<Rightarrow>
                    if sz < 0 then Inl ValueError
                    else (case obj_to_mask drawn old lat long zoom (nat sz) of
                            Inl e \<Rightarrow> Inl e
                          | Inr old_mask \<Rightarrow>
                              (case overlap_loop drawn lat long zoom (nat sz) old_mask
                                      new_list False of
                                 Inl e \<Rightarrow> Inl e
                               | Inr overlap \<Rightarrow>
                                   dedup_loop genv drawn old_list
                                     (if \<not> overlap then new_list @ [old] else new_list))))))"

text \<open>
  \<^verbatim>\<open>remove_mask_duplicates\<close>, from the unpickled \<^verbatim>\<open>old_list\<close> to the list it pickles:
  \<^verbatim>\<open>new_list.append(old_list[0])\<close> raises on an empty list, then the loop runs over
  all of \<^verbatim>\<open>old_list\<close>, its first element included.
\<close>

definition remove_mask_duplicates ::
  "(string \<rightharpoonup> py_value) \<Rightarrow> ((int \<times> int) list \<Rightarrow> int \<times> int \<Rightarrow> bool)
     \<Rightarrow> polygon list \<Rightarrow> py_error + polygon list" where
  "remove_mask_duplicates genv drawn old_list =
     (case old_list of
        [] \<Rightarrow> Inl IndexError
      | first # _ \<Rightarrow> dedup_loop genv drawn old_list [first])"

text \<open>
  An L-shaped polygon for the examples: two arms of 20 degrees, one degree wide, around
  the empty middle of its bounding box.
\<close>

definition example_L :: polygon where
  "example_L = [(0, - 10), (20, - 10), (20, - 9), (1, - 9), (1, 10), (0, 10)]"

text \<open>
  The same shape at the scale of \<^verbatim>\<open>main.py\<close> (zoom 17, 640 pixels): arms 4000 pixels
  long and 100 pixels wide around latitude 0.
\<close>

definition example_L17 :: polygon where
  "example_L17 =
     [(0, - (5625 / 262144)), (5625 / 131072, - (5625 / 262144)),
      (5625 / 131072, - (21375 / 1048576)), (1125 / 1048576, - (21375 / 1048576)),
      (1125 / 1048576, 5625 / 262144), (0, 5625 / 262144)]"

section \<open>Tile-level mask deduplication\<close>

unbundle bit_operations_syntax

text \<open>
  \<^verbatim>\<open>s.split(sep)\<close> for a one-character separator: the pieces between the separators,
  empty ones included; the result is never empty.
\<close>

fun split_on :: "char \<Rightarrow> string \<Rightarrow> string list" where
  "split_on sep [] = [[]]"
| "split_on sep (c # cs) =
     (if c = sep then [] # split_on sep cs
      else (case split_on sep cs of
              [] \<Rightarrow> [[c]]
            | w # ws \<Rightarrow> (c # w) # ws))"

text \<open>
  \<^verbatim>\<open>a > b\<close> on Python strings: lexicographic by code point, a proper prefix being
  smaller.
\<close>

fun str_gt :: "string \<Rightarrow> string \<Rightarrow> bool" where
  "str_gt [] b = False"
| "str_gt (c # cs) [] = True"
| "str_gt (c # cs) (d # ds) =
     (if c = d then str_gt cs ds else (of_char d :: nat) < of_char c)"

text \<open>\<^verbatim>\<open>file.split('_')[:4]\<close> and \<^verbatim>\<open>file.split('_')[-1].split('.')[0]\<close>.\<close>

definition tile_of :: "string \<Rightarrow> string list" where
  "tile_of file = take 4 (split_on CHR ''_'' file)"

definition mask_num :: "string \<Rightarrow> string" where
  "mask_num file = hd (split_on CHR ''.'' (last (split_on CHR ''_'' file)))"

text \<open>
  NumPy broadcasting along one axis: two axes of the same length are paired index by
  index, an axis of length 1 is repeated along the other one, and any other two lengths
  do not fit.
\<close>

definition broadcast :: "'a list \<Rightarrow> 'a list \<Rightarrow> ('a \<times> 'a) list option" where
  "broadcast xs ys =
     (if length xs = length ys then Some (zip xs ys)
      else if length xs = 1 then Some (map (\<lambda>y. (hd xs, y)) ys)
      else if length ys = 1 then Some (map (\<lambda>x. (x, hd ys)) xs)
      else None)"

text \<open>
  \<^verbatim>\<open>(mask_1 & mask_2).any()\<close> on two arrays of 8 bit pixels, each the list of its
  rows: the bitwise and of the pixels NumPy pairs, rows first, then the pixels of two
  paired rows.  Shapes that do not broadcast make NumPy raise \<^verbatim>\<open>ValueError\<close>.
\<close>

definition and_any :: "mask \<Rightarrow> mask \<Rightarrow> py_error + bool" where
  "and_any mask_1 mask_2 =
     (case broadcast mask_1 mask_2 of
        None \<Rightarrow> Inl ValueError
      | Some rows \<Rightarrow>
          if list_ex (\<lambda>(r1, r2). broadcast r1 r2 = None) rows then Inl ValueError
          else Inr (list_ex (\<lambda>(r1, r2).
                      case broadcast r1 r2 of
                        None \<Rightarrow> False
                      | Some ps \<Rightarrow> list_ex (\<lambda>(p, q). p AND q \<noteq> 0) ps) rows))"

text \<open>
  The body of the two loops for one ordered pair of masks.  \<open>dir\<close> is the set of files
  still in \<^verbatim>\<open>masks_dir\<close>; \<^verbatim>\<open>os.remove\<close> of a file already removed raises inside the
  \<^verbatim>\<open>try\<close>, and the bare \<^verbatim>\<open>except: pass\<close> swallows it.
\<close>

definition pair_step ::
  "string \<times> mask \<Rightarrow> string \<times> mask \<Rightarrow> string set \<Rightarrow> py_error + string set" where
  "pair_step p1 p2 dir =
     (case (p1, p2) of ((file_1, mask_1), (file_2, mask_2)) \<Rightarrow>
        if file_1 \<noteq> file_2 then
          (case and_any mask_1 mask_2 of
             Inl e \<Rightarrow> Inl e
           | Inr hit \<Rightarrow>
               if hit then
                 (let map_1 = tile_of file_1; map_2 = tile_of file_2 in
                  if map_1 = map_2 then
                    (let mask_1_num = mask_num file_1; mask_2_num = mask_num file_2;
                         rem_path = (if str_gt mask_1_num mask_2_num then file_1 else file_2)
                     in Inr (dir - {rem_path}))
                  else Inr dir)
               else Inr dir)
        else Inr dir)"

text \<open>\<^verbatim>\<open>for file_2, mask_2 in masks:\<close>\<close>

fun inner_loop ::
  "string \<times> mask \<Rightarrow> (string \<times> mask) list \<Rightarrow> string set \<Rightarrow> py_error + string set" where
  "inner_loop p1 [] dir = Inr dir"
| "inner_loop p1 (p2 # ps) dir =
     (case pair_step p1 p2 dir of
        Inl e \<Rightarrow> Inl e
      | Inr dir' \<Rightarrow> inner_loop p1 ps dir')"

text \<open>\<^verbatim>\<open>for file_1, mask_1 in masks:\<close>\<close>

fun outer_loop ::
  "(string \<times> mask) list \<Rightarrow> (string \<times> mask) list \<Rightarrow> string set \<Rightarrow> py_error + string set" where
  "outer_loop [] masks dir = Inr dir"
| "outer_loop (p1 # ps) masks dir =
     (case inner_loop p1 masks dir of
        Inl e \<Rightarrow> Inl e
      | Inr dir' \<Rightarrow> outer_loop ps masks dir')"

text \<open>
  \<^verbatim>\<open>remove_masks_with_ovelapping_pixels\<close>: the argument is the content of
  \<^verbatim>\<open>masks_dir\<close> as the first loop reads it, one \<open>(file, mask)\<close> per file in the
  order of \<^verbatim>\<open>os.listdir\<close>; the result is the set of files left.
\<close>

definition remove_masks_with_ovelapping_pixels ::
  "(string \<times> mask) list \<Rightarrow> py_error + string set" where
  "remove_masks_with_ovelapping_pixels masks = outer_loop masks masks (set (map fst masks))"

text \<open>
  The file the code removes for an ordered pair, if any: the pair must have different
  names, a common pixel and the same tile.
\<close>

definition loser :: "string \<times> mask \<Rightarrow> string \<times> mask \<Rightarrow> string option" where
  "loser p1 p2 =
     (if fst p1 \<noteq> fst p2 \<and> and_any (snd p1) (snd p2) = Inr True \<and>
         tile_of (fst p1) = tile_of (fst p2)
      then Some (if str_gt (mask_num (fst p1)) (mask_num (fst p2)) then fst p1 else fst p2)
      else None)"

text \<open>
  The ordinal as a number, in the words of the spec: a suffix is a decimal numeral when
  it is a non-empty string of digits, and \<open>dec_val\<close> is the integer it denotes.
\<close>

definition is_digit :: "char \<Rightarrow> bool" where
  "is_digit c = (48 \<le> (of_char c :: nat) \<and> (of_char c :: nat) \<le> 57)"

definition decimal :: "string \<Rightarrow> bool" where
  "decimal s = (s \<noteq> [] \<and> list_all is_digit s)"

definition dec_val :: "string \<Rightarrow> nat" where
  "dec_val s = foldl (\<lambda>a c. 10 * a + (of_char c - 48)) 0 s"

section \<open>Facts about the projection math\<close>

declare lat_loop.simps [simp del]

lemma calc_c_zoom_pos: "0 < calc_c_zoom zoom"
  by (simp add: calc_c_zoom_def)






lemma norm_lat_0: "norm_lat 0 = Inr 0"
  by (simp add: norm_lat_def angle_lat_def)









lemma lat_loop_done:
  "\<bar>diff\<bar> \<le> 10 powi (- 9) \<Longrightarrow> lat_loop fuel C n lat diff = Some (Inr lat)"
  by (cases fuel) (simp_all add: lat_loop.simps)



lemma lat_loop_fuel_mono:
  "lat_loop fuel C n lat diff = Some r \<Longrightarrow> lat_loop (fuel + k) C n lat diff = Some r"
proof (induction fuel arbitrary: lat diff)
  case 0
  then show ?case by (cases k) (auto simp: lat_loop.simps split: if_splits)
next
  case (Suc fuel)
  then show ?case
    by (auto simp: lat_loop.simps Let_def split: if_splits sum.splits)
qed

lemma lat_degrees_per_img_512:
  "lat_degrees_per_img zoom lat 512 = calc_c_zoom zoom * cos (angle_lat lat)"
  by (simp add: lat_degrees_per_img_def lat_degrees_per_pixel_def)

lemma get_exact_map_lat_on_grid_line:
  assumes "norm_lat lat = Inr (of_int k * calc_c_zoom zoom)"
  shows "get_exact_map_lat fuel lat zoom =
           Some (Inr (lat + calc_c_zoom zoom * cos (angle_lat lat) / 2, of_int k))"
  using assms calc_c_zoom_pos [of zoom]
  by (simp add: get_exact_map_lat_def Let_def lat_loop_done lat_degrees_per_img_512)

lemma get_exact_map_lat_equator:
  "get_exact_map_lat fuel 0 zoom = Some (Inr (calc_c_zoom zoom / 2, 0))"
  using get_exact_map_lat_on_grid_line [of 0 0 zoom fuel]
  by (simp add: norm_lat_0 angle_lat_def)


section \<open>The longitude solver\<close>




section \<open>Totality of the solver\<close>


lemma calc_c_zoom_17: "calc_c_zoom 17 = 45 / 8192"
  by (simp add: calc_c_zoom_def)




section \<open>Re-running the solver on a corrected center\<close>




section \<open>The refinement loop of the latitude solver\<close>







text \<open>Fuel only counts iterations: more fuel never changes a result.\<close>

lemma get_exact_map_lat_fuel_mono:
  assumes "get_exact_map_lat fuel lat zoom = Some r"
  shows "get_exact_map_lat (fuel + k) lat zoom = Some r"
proof (cases "norm_lat lat")
  case (Inl e)
  with assms show ?thesis by (simp add: get_exact_map_lat_def)
next
  case (Inr nl)
  with assms obtain r' where
    "lat_loop fuel (calc_c_zoom zoom) (of_int \<lfloor>nl / calc_c_zoom zoom\<rfloor>) lat
       (nl / calc_c_zoom zoom - of_int \<lfloor>nl / calc_c_zoom zoom\<rfloor>) = Some r'"
    by (auto simp: get_exact_map_lat_def Let_def split: option.splits)
  from lat_loop_fuel_mono [OF this, of k] this assms Inr show ?thesis
    by (simp add: get_exact_map_lat_def Let_def)
qed

section \<open>Pixel coordinates of the rasterizer\<close>

lemma cos_angle_lat_60: "cos (angle_lat 60) = 1 / 2"
  by (simp add: angle_lat_def cos_60)

lemma cos_angle_lat_0: "cos (angle_lat 0) = 1"
  by (simp add: angle_lat_def)

lemma center_example:
  "get_polygon_center [(0, 59), (1, 61), (0, 61)] = Inr (60, 1 / 2)"
  by (simp add: get_polygon_center_def get_polygon_bbox_def get_polygon_coords_def)

text \<open>
  Claim C6 says that both degrees-per-pixel factors are evaluated at the tile center
  passed to the rasterizer.  The latitude factor is not: at zoom 17 and size 640, for
  the tile centered at \<open>(0, 0)\<close> and a polygon around latitude 60, the vertex of
  latitude 59 gets \<open>y = - 494899072 / 45\<close>, twice the value
  \<open>(top - lat) / lat_degrees_per_pixel zoom 0\<close> of the claim, because the code scales by
  the cosine of the polygon's own center latitude.
\<close>

theorem obj_to_mask_scale_uses_polygon_center:
  "obj_to_mask_coords [(0, 59), (1, 61), (0, 61)] 0 0 17 640 =
     Inr [(320, - 494899072 / 45), (4208704 / 45, - 511676288 / 45),
          (320, - 511676288 / 45)] \<and>
   ((0 + lat_degrees_per_img 17 0 640 / 2) - 59) / lat_degrees_per_pixel 17 0
     = - 247449536 / 45"
  by (simp add: obj_to_mask_coords_def center_example get_polygon_coords_def
      lat_degrees_per_img_def lat_degrees_per_pixel_def
      long_degrees_per_img_def long_degrees_per_pixel_def calc_c_zoom_17
      cos_angle_lat_60 cos_angle_lat_0)

text \<open>
  Claim C6, as amended.  For every vertex \<open>(long, lat)\<close> the rasterizer computes
  \<open>x = (long - left) / long_degrees_per_pixel\<close> and
  \<open>y = (top - lat) / lat_degrees_per_pixel\<close>, where \<open>top\<close> is the tile center's
  latitude plus half the image's latitude span and \<open>left\<close> the tile center's longitude
  minus half the image's longitude span, both at the tile center; the longitude factor
  does not depend on the position, and the latitude factor is evaluated at the center
  latitude of the polygon's own bounding box, not at the tile center.
\<close>

theorem obj_to_mask_coords_formula:
  assumes "get_polygon_center polygon = Inr (lat, long)"
    and "sz \<noteq> 0" and "cos (angle_lat lat) \<noteq> 0"
  shows "obj_to_mask_coords polygon exact_map_lat exact_map_long zoom sz =
           Inr (map (\<lambda>(x, y).
                  ((x - (exact_map_long - long_degrees_per_img zoom exact_map_long sz / 2))
                     / long_degrees_per_pixel zoom exact_map_long,
                   ((exact_map_lat + lat_degrees_per_img zoom exact_map_lat sz / 2) - y)
                     / lat_degrees_per_pixel zoom lat))
                (get_polygon_coords polygon))"
proof -
  have C: "calc_c_zoom zoom \<noteq> 0" using calc_c_zoom_pos [of zoom] by simp
  have lo: "long_degrees_per_img zoom long sz \<noteq> 0"
    using assms(2) C by (simp add: long_degrees_per_img_def long_degrees_per_pixel_def)
  have la: "lat_degrees_per_img zoom lat sz \<noteq> 0"
    using assms(2,3) C by (simp add: lat_degrees_per_img_def lat_degrees_per_pixel_def)
  have sx: "real sz / long_degrees_per_img zoom long sz
              = 1 / long_degrees_per_pixel zoom exact_map_long"
    using assms(2) by (simp add: long_degrees_per_img_def long_degrees_per_pixel_def)
  have sy: "real sz / lat_degrees_per_img zoom lat sz = 1 / lat_degrees_per_pixel zoom lat"
    using assms(2) by (simp add: lat_degrees_per_img_def)
  show ?thesis
    using lo la by (simp add: obj_to_mask_coords_def assms(1) Let_def sx sy)
qed

theorem obj_to_mask_coords_formula_witness:
  "get_polygon_center [(0, 59), (1, 61), (0, 61)] = Inr (60, 1 / 2) \<and> (640::nat) \<noteq> 0 \<and>
   cos (angle_lat 60) \<noteq> 0 \<and>
   obj_to_mask_coords [(0, 59), (1, 61), (0, 61)] 0 0 17 640 =
     Inr [(320, - 494899072 / 45), (4208704 / 45, - 511676288 / 45),
          (320, - 511676288 / 45)]"
proof -
  have c: "cos (angle_lat 60) \<noteq> 0" by (simp add: cos_angle_lat_60)
  have n: "(640::nat) \<noteq> 0" by simp
  show ?thesis
    using obj_to_mask_coords_formula [OF center_example n c, of 0 0 17] c
    by (simp add: get_polygon_coords_def center_example
        lat_degrees_per_img_def lat_degrees_per_pixel_def
        long_degrees_per_img_def long_degrees_per_pixel_def calc_c_zoom_17
        cos_angle_lat_60 cos_angle_lat_0)
qed

section \<open>Masks written by the assignment step\<close>

lemma sum_list_nat_zero: "sum_list (xs :: nat list) = 0 \<longleftrightarrow> (\<forall>x\<in>set xs. x = 0)"
  by (induction xs) auto

lemma nonzero_pixel_iff: "nonzero_pixel m \<longleftrightarrow> (\<exists>row\<in>set m. \<exists>p\<in>set row. 0 < p)"
  by (auto simp: nonzero_pixel_def list_ex_iff)

lemma sum_concat_nonzero: "sum_list (concat m) \<noteq> 0 \<longleftrightarrow> nonzero_pixel m"
  by (auto simp: sum_list_nat_zero nonzero_pixel_iff)






text \<open>Running the rasterizer on concrete polygons.\<close>

lemmas raster_defs =
  obj_to_mask_def obj_to_mask_coords_def get_polygon_center_def get_polygon_bbox_def
  get_polygon_coords_def lat_degrees_per_img_def lat_degrees_per_pixel_def
  long_degrees_per_img_def long_degrees_per_pixel_def calc_c_zoom_def cos_angle_lat_0
  astype_int32_def even_odd_fill_def on_segment_def crosses_ray_def Let_def

lemma upt_2: "[0..<2] = [0, Suc 0]"
  by (simp add: numeral_2_eq_2)







section \<open>Free names of the deduplication\<close>

lemma get_polygon_center_nonempty:
  "polygon \<noteq> [] \<Longrightarrow> \<exists>lat long. get_polygon_center polygon = Inr (lat, long)"
  unfolding get_polygon_center_def get_polygon_bbox_def get_polygon_coords_def Let_def
  by (simp only: if_False sum.case prod.case) blast

lemma lookup_zoom_unbound: "lookup_int KML_to_mask_globals ''zoom'' = Inl (NameError ''zoom'')"
  by (simp add: lookup_int_def lookup_global_def KML_to_mask_globals_def builtin_names_def)

text \<open>
  Claim C10.  \<^verbatim>\<open>zoom\<close> and \<^verbatim>\<open>size\<close> are bound in the namespace of \<^verbatim>\<open>main.py\<close> but
  not in the module that defines \<open>remove_mask_duplicates\<close>, so every call of it on a
  non-empty list (whose first polygon has a vertex, so that its center exists) raises
  \<^verbatim>\<open>NameError\<close> at the first rasterization, before any polygon is compared.
\<close>

theorem remove_mask_duplicates_unbound_name:
  "main_globals ''zoom'' = Some (IntVal 17) \<and> main_globals ''size'' = Some (IntVal 640) \<and>
   lookup_global KML_to_mask_globals ''zoom'' = Inl (NameError ''zoom'') \<and>
   lookup_global KML_to_mask_globals ''size'' = Inl (NameError ''size'') \<and>
   (old_list \<noteq> [] \<and> hd old_list \<noteq> [] \<longrightarrow>
      remove_mask_duplicates KML_to_mask_globals drawn old_list = Inl (NameError ''zoom''))"
proof (intro conjI impI)
  assume h: "old_list \<noteq> [] \<and> hd old_list \<noteq> []"
  then obtain old rest where o: "old_list = old # rest" and "old \<noteq> []"
    by (cases old_list) auto
  then obtain lat long where "get_polygon_center old = Inr (lat, long)"
    using get_polygon_center_nonempty by blast
  then show "remove_mask_duplicates KML_to_mask_globals drawn old_list = Inl (NameError ''zoom'')"
    by (simp add: remove_mask_duplicates_def o lookup_zoom_unbound)
qed (simp_all add: main_globals_def lookup_global_def KML_to_mask_globals_def builtin_names_def)

theorem remove_mask_duplicates_unbound_name_witness:
  "[example_L] \<noteq> [] \<and> hd [example_L] \<noteq> [] \<and>
   remove_mask_duplicates KML_to_mask_globals even_odd_fill [example_L]
     = Inl (NameError ''zoom'')"
  using remove_mask_duplicates_unbound_name [of "[example_L]" even_odd_fill]
  by (simp add: example_L_def)


section \<open>The deduplicated polygon list\<close>

lemma masks_overlap_self: "masks_overlap m m \<longleftrightarrow> nonzero_pixel m"
  by (auto simp: masks_overlap_def nonzero_pixel_def list_ex_iff zip_same_conv_map)

lemma dedup_loop_subset:
  "dedup_loop genv drawn old_list new_list = Inr out \<Longrightarrow>
     set out \<subseteq> set new_list \<union> set old_list"
proof (induction old_list arbitrary: new_list)
  case Nil
  then show ?case by simp
next
  case (Cons old old_list)
  from Cons.prems obtain nl where
    "dedup_loop genv drawn old_list nl = Inr out" and "set nl \<subseteq> set new_list \<union> {old}"
    by (auto split: sum.splits if_splits prod.splits)
  with Cons.IH [of nl] show ?case by auto
qed

lemma dedup_loop_distinct:
  "dedup_loop genv drawn old_list new_list = Inr out \<Longrightarrow> distinct new_list \<Longrightarrow>
     distinct old_list \<Longrightarrow> set new_list \<inter> set old_list = {} \<Longrightarrow> distinct out"
proof (induction old_list arbitrary: new_list)
  case Nil
  then show ?case by simp
next
  case (Cons old old_list)
  from Cons.prems(1) obtain nl where
    rec: "dedup_loop genv drawn old_list nl = Inr out"
    and nl: "nl = new_list @ [old] \<or> nl = new_list"
    by (auto split: sum.splits if_splits prod.splits)
  have "distinct nl" "set nl \<inter> set old_list = {}"
    using nl Cons.prems(2-4) by auto
  with Cons.IH [OF rec] Cons.prems(3) show ?case by simp
qed

text \<open>
  What the deduplication does keep: whenever it returns, the new list holds only polygons
  of the input; and when the input polygons are pairwise distinct and the mask of the
  first polygon around its own center has a nonzero pixel, no polygon occurs twice.
\<close>

lemma remove_mask_duplicates_sound:
  assumes "remove_mask_duplicates genv drawn old_list = Inr new_list"
  shows "set new_list \<subseteq> set old_list \<and>
         (distinct old_list \<and>
          (\<forall>lat long zoom sz m. get_polygon_center (hd old_list) = Inr (lat, long) \<and>
             lookup_int genv ''zoom'' = Inr zoom \<and> lookup_int genv ''size'' = Inr sz \<and>
             obj_to_mask drawn (hd old_list) lat long zoom (nat sz) = Inr m \<longrightarrow>
             nonzero_pixel m) \<longrightarrow>
          distinct new_list)"
proof (intro conjI impI)
  from assms obtain first rest where o: "old_list = first # rest"
    and run: "dedup_loop genv drawn (first # rest) [first] = Inr new_list"
    by (auto simp: remove_mask_duplicates_def split: list.splits)
  from dedup_loop_subset [OF run] show "set new_list \<subseteq> set old_list"
    by (auto simp: o)
  assume h: "distinct old_list \<and>
          (\<forall>lat long zoom sz m. get_polygon_center (hd old_list) = Inr (lat, long) \<and>
             lookup_int genv ''zoom'' = Inr zoom \<and> lookup_int genv ''size'' = Inr sz \<and>
             obj_to_mask drawn (hd old_list) lat long zoom (nat sz) = Inr m \<longrightarrow>
             nonzero_pixel m)"
  from run obtain lat long zoom sz m ov where
    c: "get_polygon_center first = Inr (lat, long)"
    and z: "lookup_int genv ''zoom'' = Inr zoom" and s: "lookup_int genv ''size'' = Inr sz"
    and m: "obj_to_mask drawn first lat long zoom (nat sz) = Inr m"
    and ov: "overlap_loop drawn lat long zoom (nat sz) m [first] False = Inr ov"
    and rec: "dedup_loop genv drawn rest (if \<not> ov then [first] @ [first] else [first])
                = Inr new_list"
    by (auto split: sum.splits if_splits prod.splits)
  have "nonzero_pixel m" using h c z s m by (simp add: o)
  then have "ov" using ov m by (simp add: masks_overlap_self)
  then have "dedup_loop genv drawn rest [first] = Inr new_list" using rec by simp
  from dedup_loop_distinct [OF this] h show "distinct new_list" by (simp add: o)
qed

lemma example_L_center: "get_polygon_center example_L = Inr (0, 10)"
  by (simp add: get_polygon_center_def get_polygon_bbox_def get_polygon_coords_def example_L_def)

lemma example_L_mask:
  "obj_to_mask even_odd_fill example_L 0 10 1 2 = Inr [[0, 0], [0, 0]]"
  by (simp add: raster_defs upt_2 example_L_def)

text \<open>
  With \<^verbatim>\<open>zoom\<close> and \<^verbatim>\<open>size\<close> bound, on a small image: the mask of the L-shaped polygon
  around its own center is all zero, and the polygon is put on the new list twice.
\<close>

lemma small_first_polygon_repeated:
  "remove_mask_duplicates (KML_to_mask_globals(''zoom'' \<mapsto> IntVal 1, ''size'' \<mapsto> IntVal 2))
     even_odd_fill [example_L] = Inr [example_L, example_L]"
  by (simp add: remove_mask_duplicates_def example_L_center lookup_int_def lookup_global_def
      example_L_mask masks_overlap_def)

section \<open>Which overlapping mask is removed\<close>

lemma split_on_nonempty: "split_on sep s \<noteq> []"
  by (induction s) (auto split: list.splits)

lemma pair_step_loser:
  "pair_step p1 p2 dir = Inr dir' \<Longrightarrow> dir' = dir - set_option (loser p1 p2)"
  by (cases p1; cases p2)
    (auto simp: pair_step_def loser_def Let_def split: if_splits sum.splits)

lemma inner_loop_loser:
  "inner_loop p1 ps dir = Inr dir' \<Longrightarrow>
     dir' = dir - (\<Union>p2\<in>set ps. set_option (loser p1 p2))"
proof (induction ps arbitrary: dir)
  case Nil
  then show ?case by simp
next
  case (Cons p2 ps)
  from Cons.prems obtain d where s: "pair_step p1 p2 dir = Inr d"
    and r: "inner_loop p1 ps d = Inr dir'"
    by (auto split: sum.splits)
  from Cons.IH [OF r] pair_step_loser [OF s] show ?case by auto
qed

lemma outer_loop_loser:
  "outer_loop ps masks dir = Inr dir' \<Longrightarrow>
     dir' = dir - (\<Union>p1\<in>set ps. \<Union>p2\<in>set masks. set_option (loser p1 p2))"
proof (induction ps arbitrary: dir)
  case Nil
  then show ?case by simp
next
  case (Cons p1 ps)
  from Cons.prems obtain d where s: "inner_loop p1 masks dir = Inr d"
    and r: "outer_loop ps masks d = Inr dir'"
    by (auto split: sum.splits)
  from Cons.IH [OF r] inner_loop_loser [OF s] show ?case by auto
qed

text \<open>
  What the two loops leave: a file of the listing stays exactly when no ordered pair of
  the listing makes it the file to remove.
\<close>

lemma remove_masks_characterised:
  assumes "remove_masks_with_ovelapping_pixels masks = Inr dir'"
  shows "dir' = {f \<in> fst ` set masks.
                 \<not> (\<exists>p1\<in>set masks. \<exists>p2\<in>set masks. loser p1 p2 = Some f)}"
proof -
  have m: "\<And>f xo. f \<in> set_option xo \<longleftrightarrow> xo = Some f"
    by (case_tac xo) auto
  show ?thesis
    using outer_loop_loser [OF assms [unfolded remove_masks_with_ovelapping_pixels_def]]
    by (auto simp: m)
qed

lemma example_names:
  "tile_of ''lat_10.0005000_long_20.0005000_zoom_17_hill_2.png'' =
     [''lat'', ''10.0005000'', ''long'', ''20.0005000'']"
  "tile_of ''lat_10.0005000_long_20.0005000_zoom_17_hill_10.png'' =
     [''lat'', ''10.0005000'', ''long'', ''20.0005000'']"
  "mask_num ''lat_10.0005000_long_20.0005000_zoom_17_hill_2.png'' = ''2''"
  "mask_num ''lat_10.0005000_long_20.0005000_zoom_17_hill_10.png'' = ''10''"
  by (simp_all add: tile_of_def mask_num_def)

text \<open>
  The ordinals are compared as the strings \<^verbatim>\<open>split\<close> returns, without \<^verbatim>\<open>int()\<close>: of
  the masks 2 and 10 of one tile, overlapping, mask 2 is removed (\<^verbatim>\<open>'2' > '10'\<close>) and
  mask 10 is kept.
\<close>

lemma string_order_removes_lower_ordinal:
  "remove_masks_with_ovelapping_pixels
     [(''lat_10.0005000_long_20.0005000_zoom_17_hill_2.png'', [[255]]),
      (''lat_10.0005000_long_20.0005000_zoom_17_hill_10.png'', [[255]])] =
   Inr {''lat_10.0005000_long_20.0005000_zoom_17_hill_10.png''}"
  by (simp add: remove_masks_with_ovelapping_pixels_def pair_step_def and_any_def broadcast_def
      example_names) 


lemma example_names_2:
  "tile_of ''lat_10.0005000_long_20.0005000_zoom_17_hill_0.png'' =
     [''lat'', ''10.0005000'', ''long'', ''20.0005000'']"
  "tile_of ''lat_10.0005000_long_20.0005000_zoom_17_hill_1.png'' =
     [''lat'', ''10.0005000'', ''long'', ''20.0005000'']"
  "tile_of ''lat_10.0060000_long_20.0005000_zoom_17_hill_0.png'' =
     [''lat'', ''10.0060000'', ''long'', ''20.0005000'']"
  "mask_num ''lat_10.0005000_long_20.0005000_zoom_17_hill_0.png'' = ''0''"
  "mask_num ''lat_10.0005000_long_20.0005000_zoom_17_hill_1.png'' = ''1''"
  "mask_num ''lat_10.0060000_long_20.0005000_zoom_17_hill_0.png'' = ''0''"
  by (simp_all add: tile_of_def mask_num_def)

lemma example_dedup_run:
  "remove_masks_with_ovelapping_pixels
     [(''lat_10.0005000_long_20.0005000_zoom_17_hill_0.png'', [[255, 0]]),
      (''lat_10.0005000_long_20.0005000_zoom_17_hill_1.png'', [[255, 255]]),
      (''lat_10.0060000_long_20.0005000_zoom_17_hill_0.png'', [[0, 255]])] =
   Inr {''lat_10.0005000_long_20.0005000_zoom_17_hill_0.png'',
        ''lat_10.0060000_long_20.0005000_zoom_17_hill_0.png''}"
  by (simp add: remove_masks_with_ovelapping_pixels_def pair_step_def and_any_def broadcast_def
      example_names_2 insert_Diff_if)

lemma example_names_3:
  "tile_of ''lat_10.0005000_long_20.0005000_zoom_17_hill_2.png'' =
     [''lat'', ''10.0005000'', ''long'', ''20.0005000'']"
  "mask_num ''lat_10.0005000_long_20.0005000_zoom_17_hill_2.png'' = ''2''"
  "tile_of ''lat_10.0005000_long_20.0005000_zoom_18_hill_1.png'' =
     [''lat'', ''10.0005000'', ''long'', ''20.0005000'']"
  "mask_num ''lat_10.0005000_long_20.0005000_zoom_18_hill_1.png'' = ''1''"
  by (simp_all add: tile_of_def mask_num_def)

text \<open>
  Claim C3 says that of every two overlapping masks of one tile the one with the larger
  ordinal is removed and the one with the lower ordinal is kept.  The loops visit all
  ordered pairs of the listing they loaded at the start, whatever was removed in between:
  of the masks 0, 1, 2 of one tile, where 0 overlaps 1 and 1 overlaps 2 but 0 and 2 have
  no common pixel, the pair (1, 2) removes mask 2 and the pair (0, 1) removes mask 1, the
  lower mask of the pair (1, 2).  Only mask 0 is left.
\<close>

theorem lower_mask_of_pair_removed_by_third:
  "remove_masks_with_ovelapping_pixels
     [(''lat_10.0005000_long_20.0005000_zoom_17_hill_0.png'', [[255, 0]]),
      (''lat_10.0005000_long_20.0005000_zoom_17_hill_1.png'', [[255, 255]]),
      (''lat_10.0005000_long_20.0005000_zoom_17_hill_2.png'', [[0, 255]])] =
   Inr {''lat_10.0005000_long_20.0005000_zoom_17_hill_0.png''} \<and>
   and_any [[255, 255]] [[0, 255]] = Inr True \<and>
   tile_of ''lat_10.0005000_long_20.0005000_zoom_17_hill_1.png'' =
     tile_of ''lat_10.0005000_long_20.0005000_zoom_17_hill_2.png'' \<and>
   dec_val (mask_num ''lat_10.0005000_long_20.0005000_zoom_17_hill_1.png'') = 1 \<and>
   dec_val (mask_num ''lat_10.0005000_long_20.0005000_zoom_17_hill_2.png'') = 2 \<and>
   ''lat_10.0005000_long_20.0005000_zoom_17_hill_1.png'' \<notin>
     {''lat_10.0005000_long_20.0005000_zoom_17_hill_0.png''}"
  by (simp add: remove_masks_with_ovelapping_pixels_def pair_step_def and_any_def
      broadcast_def example_names_2 example_names_3 insert_Diff_if dec_val_def)

text \<open>
  The tile of a mask file is read off the first four fields of its name, the latitude
  and the longitude of the tile center: two masks of the zoom levels 17 and 18 around
  the same center are compared like masks of one tile.
\<close>

lemma tile_key_leaves_zoom_out:
  "remove_masks_with_ovelapping_pixels
     [(''lat_10.0005000_long_20.0005000_zoom_17_hill_0.png'', [[255]]),
      (''lat_10.0005000_long_20.0005000_zoom_18_hill_1.png'', [[255]])] =
   Inr {''lat_10.0005000_long_20.0005000_zoom_17_hill_0.png''}"
  by (simp add: remove_masks_with_ovelapping_pixels_def pair_step_def and_any_def
      broadcast_def example_names_2 example_names_3 insert_Diff_if)

text \<open>
  A mask of one row is broadcast along the rows of the other mask, as NumPy does.
\<close>

lemma and_any_broadcast_example:
  "and_any [[0, 255]] [[255, 0], [0, 255]] = Inr True \<and>
   and_any [[0, 255], [0, 0], [0, 0]] [[255, 0], [0, 255]] = Inl ValueError"
  by (simp add: and_any_def broadcast_def)

section \<open>Ordinals as numbers\<close>

lemma dec_foldl_shift:
  "foldl (\<lambda>a c. 10 * a + (of_char c - 48)) a s =
     a * 10 ^ length s + foldl (\<lambda>a c. 10 * a + (of_char c - (48::nat))) 0 s"
proof -
  define f :: "nat \<Rightarrow> char \<Rightarrow> nat" where "f = (\<lambda>a c. 10 * a + (of_char c - 48))"
  have "foldl f a s = a * 10 ^ length s + foldl f 0 s"
  proof (induction s arbitrary: a)
    case Nil
    then show ?case by simp
  next
    case (Cons c s)
    have "foldl f (f a c) s = f a c * 10 ^ length s + foldl f 0 s" by (rule Cons.IH)
    moreover have "foldl f (f 0 c) s = f 0 c * 10 ^ length s + foldl f 0 s" by (rule Cons.IH)
    moreover have "f a c = 10 * a + f 0 c" by (simp add: f_def)
    ultimately show ?case by (simp add: algebra_simps)
  qed
  then show ?thesis by (simp only: f_def)
qed

lemma dec_val_Cons: "dec_val (c # s) = (of_char c - 48) * 10 ^ length s + dec_val s"
  by (simp add: dec_val_def dec_foldl_shift [of "of_char c - 48"])

lemma is_digit_val: "is_digit c \<Longrightarrow> (of_char c :: nat) - 48 \<le> 9"
  unfolding is_digit_def by arith

lemma dec_val_bound: "list_all is_digit s \<Longrightarrow> dec_val s < 10 ^ length s"
proof (induction s)
  case Nil
  then show ?case by (simp add: dec_val_def)
next
  case (Cons c s)
  define P :: nat where "P = 10 ^ length s"
  from Cons have d: "(of_char c :: nat) - 48 \<le> 9" and r: "dec_val s < P"
    by (simp_all add: is_digit_val P_def)
  have "((of_char c :: nat) - 48) * P \<le> 9 * P"
    using d by (rule mult_le_mono1)
  then have "((of_char c :: nat) - 48) * P + dec_val s < 10 * P" using r by arith
  then show ?case by (simp add: dec_val_Cons P_def)
qed

lemma str_gt_numeric:
  assumes "length s = length t" and "list_all is_digit s" and "list_all is_digit t"
  shows "str_gt s t \<longleftrightarrow> dec_val t < dec_val s"
  using assms
proof (induction s t rule: list_induct2)
  case Nil
  then show ?case by (simp add: dec_val_def)
next
  case (Cons c cs d ds)
  define P :: nat where "P = 10 ^ length cs"
  have Pd: "P = 10 ^ length ds" using Cons.hyps by (simp add: P_def)
  have bc: "dec_val cs < P" using Cons.prems(1) by (simp add: P_def dec_val_bound)
  have bd: "dec_val ds < P" using Cons.prems(2) by (simp add: Pd dec_val_bound)
  have dc: "48 \<le> (of_char c :: nat)" and dd: "48 \<le> (of_char d :: nat)"
    using Cons.prems by (simp_all add: is_digit_def)
  show ?case
  proof (cases "c = d")
    case True
    then show ?thesis using Cons by (simp add: dec_val_Cons)
  next
    case False
    then have ne: "(of_char c :: nat) \<noteq> of_char d" by simp
    show ?thesis
    proof (cases "(of_char d :: nat) < of_char c")
      case True
      then have "(of_char d - 48) + 1 \<le> (of_char c - 48 :: nat)" using dc dd by arith
      then have "((of_char d - 48) + 1) * P \<le> (of_char c - 48) * P"
        by (rule mult_le_mono1)
      then have "(of_char d - 48) * P + dec_val ds < (of_char c - 48) * P + dec_val cs"
        using bd by (simp add: algebra_simps)
      then show ?thesis using True False
        by (simp add: dec_val_Cons P_def [symmetric] Pd [symmetric])
    next
      case lt: False
      then have "(of_char c - 48) + 1 \<le> (of_char d - 48 :: nat)" using dc dd ne by arith
      then have "((of_char c - 48) + 1) * P \<le> (of_char d - 48) * P"
        by (rule mult_le_mono1)
      then have "\<not> (of_char d - 48) * P + dec_val ds < (of_char c - 48) * P + dec_val cs"
        using bc by (simp add: algebra_simps)
      then show ?thesis using lt False
        by (simp add: dec_val_Cons P_def [symmetric] Pd [symmetric])
    qed
  qed
qed

lemma zip_swap: "zip ys xs = map (\<lambda>(a, b). (b, a)) (zip xs ys)"
  by (induction xs ys rule: list_induct2') auto

lemma broadcast_swap:
  "broadcast ys xs = map_option (map (\<lambda>(a, b). (b, a))) (broadcast xs ys)"
proof (cases "length xs = length ys")
  case True
  then show ?thesis by (simp add: broadcast_def zip_swap [of ys xs])
next
  case False
  then have "length ys \<noteq> length xs" by simp
  with False show ?thesis by (simp add: broadcast_def comp_def)
qed

lemma row_hit:
  "(case broadcast r1 r2 of None \<Rightarrow> False | Some ps \<Rightarrow> list_ex P ps) \<longleftrightarrow>
     (\<exists>ps. broadcast r1 r2 = Some ps \<and> (\<exists>pq\<in>set ps. P pq))"
  by (cases "broadcast r1 r2") (auto simp: list_ex_iff)

lemma and_any_hit:
  "and_any m1 m2 = Inr True \<longleftrightarrow>
     (\<exists>rows. broadcast m1 m2 = Some rows \<and>
        (\<forall>rr\<in>set rows. broadcast (fst rr) (snd rr) \<noteq> None) \<and>
        (\<exists>rr\<in>set rows. \<exists>ps. broadcast (fst rr) (snd rr) = Some ps \<and>
            (\<exists>pq\<in>set ps. fst pq AND snd pq \<noteq> 0)))"
proof (cases "broadcast m1 m2")
  case None
  then show ?thesis by (simp add: and_any_def)
next
  case (Some rows)
  show ?thesis
    unfolding and_any_def Some option.case
    by (simp add: row_hit list_ex_iff case_prod_beta)
qed

lemma and_any_commute: "and_any m1 m2 = Inr True \<Longrightarrow> and_any m2 m1 = Inr True"
proof -
  let ?sw = "\<lambda>(a, b). (b, a)"
  assume "and_any m1 m2 = Inr True"
  then obtain rows rr ps pq where rows: "broadcast m1 m2 = Some rows"
    and ok: "\<forall>rr\<in>set rows. broadcast (fst rr) (snd rr) \<noteq> None"
    and rr: "rr \<in> set rows" and ps: "broadcast (fst rr) (snd rr) = Some ps"
    and pq: "pq \<in> set ps" and nz: "fst pq AND snd pq \<noteq> 0"
    unfolding and_any_hit by blast
  have rows': "broadcast m2 m1 = Some (map ?sw rows)"
    by (simp add: broadcast_swap [of m2 m1] rows)
  have ok': "\<forall>rr\<in>set (map ?sw rows). broadcast (fst rr) (snd rr) \<noteq> None"
  proof
    fix x assume "x \<in> set (map ?sw rows)"
    then obtain y where y: "y \<in> set rows" and x: "x = (snd y, fst y)"
      by (auto simp: case_prod_beta)
    from ok y have "broadcast (fst y) (snd y) \<noteq> None" by blast
    then show "broadcast (fst x) (snd x) \<noteq> None"
      by (simp add: x broadcast_swap [of "snd y" "fst y"])
  qed
  have rr': "(snd rr, fst rr) \<in> set (map ?sw rows)"
    using rr by (force simp: case_prod_beta)
  have ps': "broadcast (fst (snd rr, fst rr)) (snd (snd rr, fst rr)) = Some (map ?sw ps)"
    by (simp add: broadcast_swap [of "snd rr" "fst rr"] ps)
  have pq': "(snd pq, fst pq) \<in> set (map ?sw ps)"
    using pq by (force simp: case_prod_beta)
  have nz': "fst (snd pq, fst pq) AND snd (snd pq, fst pq) \<noteq> 0"
    using nz by (simp add: and.commute)
  show ?thesis
    unfolding and_any_hit
    using rows' ok' rr' ps' pq' nz' by blast
qed


text \<open>
  Claim C3, as amended.  Two mask files are compared when their names agree in the first
  four fields between underscores, the latitude and the longitude of the tile center
  (the zoom field is not compared).  In a mask directory whose ordinal suffixes are
  decimal numerals with the same number of digits (where the code's string comparison is
  the numeric one): of every two such mask files with a non-empty pixel-wise AND, the
  mask with the numerically larger ordinal is removed; and a mask file is kept exactly
  when no other mask file with the same four fields that overlaps it has a lower or
  equal ordinal, so the lower mask of a pair is kept unless a third mask removes it.
\<close>

theorem overlapping_masks_removed_by_ordinal:
  assumes "remove_masks_with_ovelapping_pixels masks = Inr dir'"
    and "\<forall>(f, m)\<in>set masks. decimal (mask_num f) \<and> length (mask_num f) = n"
  shows "(\<forall>(f1, m1)\<in>set masks. \<forall>(f2, m2)\<in>set masks.
            f1 \<noteq> f2 \<and> and_any m1 m2 = Inr True \<and> tile_of f1 = tile_of f2 \<and>
            dec_val (mask_num f2) < dec_val (mask_num f1) \<longrightarrow> f1 \<notin> dir') \<and>
         (\<forall>f. f \<in> dir' \<longleftrightarrow>
            f \<in> fst ` set masks \<and>
            \<not> (\<exists>(f1, m1)\<in>set masks. \<exists>(f2, m2)\<in>set masks.
                  f1 = f \<and> f2 \<noteq> f \<and> and_any m1 m2 = Inr True \<and>
                  tile_of f1 = tile_of f2 \<and>
                  dec_val (mask_num f2) \<le> dec_val (mask_num f1)))"
proof -
  note c = remove_masks_characterised [OF assms(1)]
  have num: "str_gt (mask_num f1) (mask_num f2) \<longleftrightarrow>
               dec_val (mask_num f2) < dec_val (mask_num f1)"
    if "(f1, m1) \<in> set masks" "(f2, m2) \<in> set masks" for f1 m1 f2 m2
  proof -
    from that(1) assms(2) have a1: "decimal (mask_num f1)" "length (mask_num f1) = n"
      by auto
    from that(2) assms(2) have a2: "decimal (mask_num f2)" "length (mask_num f2) = n"
      by auto
    from a1 a2 have "decimal (mask_num f1)" "decimal (mask_num f2)"
      "length (mask_num f1) = length (mask_num f2)" by simp_all
    then show ?thesis by (intro str_gt_numeric) (simp_all add: decimal_def)
  qed
  have removed: "(\<exists>p1\<in>set masks. \<exists>p2\<in>set masks. loser p1 p2 = Some f) \<longleftrightarrow>
        (\<exists>(f1, m1)\<in>set masks. \<exists>(f2, m2)\<in>set masks.
            f1 = f \<and> f2 \<noteq> f \<and> and_any m1 m2 = Inr True \<and> tile_of f1 = tile_of f2 \<and>
            dec_val (mask_num f2) \<le> dec_val (mask_num f1))" (is "?L \<longleftrightarrow> ?R") for f
  proof
    assume ?L
    then obtain p1 p2 where pp: "p1 \<in> set masks" "p2 \<in> set masks" "loser p1 p2 = Some f"
      by blast
    define f1 m1 f2 m2 where "f1 = fst p1" and "m1 = snd p1" and "f2 = fst p2" and "m2 = snd p2"
    have in1: "(f1, m1) \<in> set masks" and in2: "(f2, m2) \<in> set masks"
      and l: "loser (f1, m1) (f2, m2) = Some f"
      using pp by (simp_all add: f1_def m1_def f2_def m2_def)
    from l have hit: "f1 \<noteq> f2" "and_any m1 m2 = Inr True" "tile_of f1 = tile_of f2"
      and who: "f = (if str_gt (mask_num f1) (mask_num f2) then f1 else f2)"
      by (auto simp: loser_def split: if_splits)
    show ?R
    proof (cases "str_gt (mask_num f1) (mask_num f2)")
      case True
      then have le: "dec_val (mask_num f2) \<le> dec_val (mask_num f1)"
        using num [OF in1 in2] by simp
      from True who have f: "f = f1" by simp
      have "\<exists>(f2, m2)\<in>set masks.
            f = f \<and> f2 \<noteq> f \<and> and_any m1 m2 = Inr True \<and> tile_of f = tile_of f2 \<and>
            dec_val (mask_num f2) \<le> dec_val (mask_num f)"
        by (rule bexI [OF _ in2]) (use f hit le in simp)
      then show ?thesis by (intro bexI [OF _ in1 [folded f]]) simp
    next
      case False
      then have le: "dec_val (mask_num f1) \<le> dec_val (mask_num f2)"
        using num [OF in1 in2] by simp
      have ov: "and_any m2 m1 = Inr True" using hit(2) by (rule and_any_commute)
      from False who have f: "f = f2" by simp
      have "\<exists>(f1', m1')\<in>set masks.
            f = f \<and> f1' \<noteq> f \<and> and_any m2 m1' = Inr True \<and> tile_of f = tile_of f1' \<and>
            dec_val (mask_num f1') \<le> dec_val (mask_num f)"
        by (rule bexI [OF _ in1]) (use f hit le ov in simp)
      then show ?thesis by (intro bexI [OF _ in2 [folded f]]) simp
    qed
  next
    assume ?R
    then obtain p1 p2 where p: "p1 \<in> set masks" "p2 \<in> set masks"
      and hp: "fst p1 = f \<and> fst p2 \<noteq> f \<and> and_any (snd p1) (snd p2) = Inr True \<and>
        tile_of (fst p1) = tile_of (fst p2) \<and>
        dec_val (mask_num (fst p2)) \<le> dec_val (mask_num (fst p1))"
      by (fastforce simp: case_prod_beta)
    define m1 f2 m2 where "m1 = snd p1" and "f2 = fst p2" and "m2 = snd p2"
    have in1: "(f, m1) \<in> set masks" and in2: "(f2, m2) \<in> set masks"
      using p hp by (auto simp: m1_def f2_def m2_def)
    have h: "f2 \<noteq> f" "and_any m1 m2 = Inr True" "tile_of f = tile_of f2"
        "dec_val (mask_num f2) \<le> dec_val (mask_num f)"
      using hp by (auto simp: m1_def f2_def m2_def)
    have "\<not> str_gt (mask_num f2) (mask_num f)" using num [OF in2 in1] h(4) by simp
    moreover have "and_any m2 m1 = Inr True" using h(2) by (rule and_any_commute)
    ultimately have "loser (f2, m2) (f, m1) = Some f" using h by (simp add: loser_def)
    with in1 in2 show ?L by blast
  qed
  have second: "\<forall>f. f \<in> dir' \<longleftrightarrow>
            f \<in> fst ` set masks \<and>
            \<not> (\<exists>(f1, m1)\<in>set masks. \<exists>(f2, m2)\<in>set masks.
                  f1 = f \<and> f2 \<noteq> f \<and> and_any m1 m2 = Inr True \<and>
                  tile_of f1 = tile_of f2 \<and>
                  dec_val (mask_num f2) \<le> dec_val (mask_num f1))"
    unfolding removed [symmetric] c by simp
  have first: "\<forall>(f1, m1)\<in>set masks. \<forall>(f2, m2)\<in>set masks.
            f1 \<noteq> f2 \<and> and_any m1 m2 = Inr True \<and> tile_of f1 = tile_of f2 \<and>
            dec_val (mask_num f2) < dec_val (mask_num f1) \<longrightarrow> f1 \<notin> dir'"
  proof (intro ballI, clarify)
    fix f1 m1 f2 m2
    assume h: "(f1, m1) \<in> set masks" "(f2, m2) \<in> set masks" "f1 \<noteq> f2"
      "and_any m1 m2 = Inr True" "tile_of f1 = tile_of f2"
      "dec_val (mask_num f2) < dec_val (mask_num f1)" "f1 \<in> dir'"
    then have "str_gt (mask_num f1) (mask_num f2)" using num [OF h(1,2)] by simp
    then have "loser (f1, m1) (f2, m2) = Some f1" using h by (simp add: loser_def)
    with h(1,2,7) show False unfolding c by blast
  qed
  from first second show ?thesis by (rule conjI)
qed

theorem overlapping_masks_removed_by_ordinal_witness:
  "remove_masks_with_ovelapping_pixels
     [(''lat_10.0005000_long_20.0005000_zoom_17_hill_0.png'', [[255, 0]]),
      (''lat_10.0005000_long_20.0005000_zoom_17_hill_1.png'', [[255, 255]]),
      (''lat_10.0060000_long_20.0005000_zoom_17_hill_0.png'', [[0, 255]])] =
   Inr {''lat_10.0005000_long_20.0005000_zoom_17_hill_0.png'',
        ''lat_10.0060000_long_20.0005000_zoom_17_hill_0.png''} \<and>
   decimal ''0'' \<and> decimal ''1'' \<and>
   and_any [[255, 255]] [[255, 0]] = Inr True \<and>
   dec_val (mask_num ''lat_10.0005000_long_20.0005000_zoom_17_hill_0.png'')
     < dec_val (mask_num ''lat_10.0005000_long_20.0005000_zoom_17_hill_1.png'') \<and>
   ''lat_10.0005000_long_20.0005000_zoom_17_hill_1.png'' \<notin>
     {''lat_10.0005000_long_20.0005000_zoom_17_hill_0.png'',
      ''lat_10.0060000_long_20.0005000_zoom_17_hill_0.png''}"
proof -
  let ?ms = "[(''lat_10.0005000_long_20.0005000_zoom_17_hill_0.png'', [[255, 0::nat]]),
      (''lat_10.0005000_long_20.0005000_zoom_17_hill_1.png'', [[255, 255]]),
      (''lat_10.0060000_long_20.0005000_zoom_17_hill_0.png'', [[0, 255]])]"
  have d: "decimal ''0''" "decimal ''1''" by (simp_all add: decimal_def is_digit_def)
  have a: "and_any [[255, 255]] [[255, 0]] = Inr True" by (simp add: and_any_def broadcast_def)
  have v: "dec_val (mask_num ''lat_10.0005000_long_20.0005000_zoom_17_hill_0.png'')
     < dec_val (mask_num ''lat_10.0005000_long_20.0005000_zoom_17_hill_1.png'')"
    by (simp add: example_names_2 dec_val_def)
  have pre: "\<forall>(f, m)\<in>set ?ms. decimal (mask_num f) \<and> length (mask_num f) = 1"
    using d by (simp add: example_names_2)
  from overlapping_masks_removed_by_ordinal [OF example_dedup_run pre]
  have "\<forall>(f1, m1)\<in>set ?ms. \<forall>(f2, m2)\<in>set ?ms.
            f1 \<noteq> f2 \<and> and_any m1 m2 = Inr True \<and> tile_of f1 = tile_of f2 \<and>
            dec_val (mask_num f2) < dec_val (mask_num f1) \<longrightarrow>
            f1 \<notin> {''lat_10.0005000_long_20.0005000_zoom_17_hill_0.png'',
                    ''lat_10.0060000_long_20.0005000_zoom_17_hill_0.png''}"
    by (rule conjunct1)
  then have "''lat_10.0005000_long_20.0005000_zoom_17_hill_1.png'' \<notin>
     {''lat_10.0005000_long_20.0005000_zoom_17_hill_0.png'',
      ''lat_10.0060000_long_20.0005000_zoom_17_hill_0.png''}"
    using a v by (simp add: example_names_2)
  with example_dedup_run d a v show ?thesis by blast
qed

section \<open>The first polygon of the deduplication\<close>

lemma obj_to_mask_all_zero:
  assumes "obj_to_mask_coords polygon lat long zoom sz = Inr cs"
    and "\<And>col row. col < sz \<Longrightarrow> row < sz \<Longrightarrow>
           \<not> drawn (map (\<lambda>(x, y). (astype_int32 x, astype_int32 y)) cs) (int col, int row)"
  shows "\<exists>m. obj_to_mask drawn polygon lat long zoom sz = Inr m \<and> \<not> nonzero_pixel m"
  using assms by (auto simp: obj_to_mask_def Let_def nonzero_pixel_iff)

lemma example_L17_center: "get_polygon_center example_L17 = Inr (0, 5625 / 262144)"
  by (simp add: get_polygon_center_def get_polygon_bbox_def get_polygon_coords_def
      example_L17_def)

lemma example_L17_coords:
  "obj_to_mask_coords example_L17 0 (5625 / 262144) 17 640 =
     Inr [(- 1680, 2320), (2320, 2320), (2320, 2220), (- 1580, 2220),
          (- 1580, - 1680), (- 1680, - 1680)]"
  by (simp add: obj_to_mask_coords_def example_L17_center get_polygon_coords_def
      lat_degrees_per_img_def lat_degrees_per_pixel_def
      long_degrees_per_img_def long_degrees_per_pixel_def calc_c_zoom_17 cos_angle_lat_0)
    (simp add: example_L17_def)

lemma example_L17_outside:
  assumes "0 \<le> x" "x < 640" "0 \<le> y" "y < 640"
  shows "\<not> even_odd_fill [(- 1680, 2320), (2320, 2320), (2320, 2220), (- 1580, 2220),
          (- 1580, - 1680), (- 1680, - 1680)] (x, y)"
  using assms by (simp add: even_odd_fill_def on_segment_def crosses_ray_def)

lemma example_L17_mask:
  "\<exists>m. obj_to_mask even_odd_fill example_L17 0 (5625 / 262144) 17 640 = Inr m \<and>
       \<not> nonzero_pixel m"
proof (rule obj_to_mask_all_zero [OF example_L17_coords])
  fix col row :: nat
  assume "col < 640" "row < 640"
  then have "\<not> even_odd_fill [(- 1680, 2320), (2320, 2320), (2320, 2220), (- 1580, 2220),
          (- 1580, - 1680), (- 1680, - 1680)] (int col, int row)"
    by (intro example_L17_outside) simp_all
  then show "\<not> even_odd_fill
      (map (\<lambda>(x, y). (astype_int32 x, astype_int32 y))
         [(- 1680, 2320), (2320, 2320), (2320, 2220), (- 1580, 2220),
          (- 1580, - 1680), (- 1680, - 1680)]) (int col, int row)"
    by (simp add: astype_int32_def)
qed

text \<open>
  Claim C4 says that \<open>remove_mask_duplicates\<close> produces a list that holds only polygons
  of its input, none of them twice.  The function as shipped produces no list: it looks
  \<^verbatim>\<open>zoom\<close> and \<^verbatim>\<open>size\<close> up in the globals of \<^verbatim>\<open>KML_to_mask.py\<close>, where neither is
  bound, and on the one-polygon list \<open>[example_L17]\<close> the first rasterization raises
  \<^verbatim>\<open>NameError\<close>, whatever OpenCV would have painted; nothing is pickled, and
  \<^verbatim>\<open>obj_list.pickle\<close> keeps the input.
\<close>

theorem remove_mask_duplicates_produces_no_list:
  "remove_mask_duplicates KML_to_mask_globals drawn [example_L17] = Inl (NameError ''zoom'')"
  by (simp add: remove_mask_duplicates_def example_L17_center lookup_zoom_unbound)

text \<open>
  Behind the unbound names lies a second defect, which a repaired lookup would expose.
  Were \<^verbatim>\<open>zoom\<close> and \<^verbatim>\<open>size\<close> bound to the 17 and 640 of \<^verbatim>\<open>main.py\<close>, the loop would
  visit the first polygon again after it was put on the new list, and only the overlap of
  its mask with itself would keep it from being appended a second time.  The 640 pixel
  image around the center of the L-shaped polygon's bounding box shows none of the
  polygon, so its own mask is all zero, and the output would hold the polygon twice.
\<close>

lemma first_polygon_repeated_once_names_are_bound:
  "remove_mask_duplicates main_globals even_odd_fill [example_L17] =
     Inr [example_L17, example_L17]"
proof -
  obtain m where m: "obj_to_mask even_odd_fill example_L17 0 (5625 / 262144) 17 640 = Inr m"
    and z: "\<not> nonzero_pixel m" using example_L17_mask by blast
  have zoom: "lookup_int main_globals ''zoom'' = Inr 17"
    and sz: "lookup_int main_globals ''size'' = Inr 640"
    by (simp_all add: lookup_int_def lookup_global_def main_globals_def)
  have nz: "\<not> masks_overlap m m"
    using z by (simp only: masks_overlap_self not_False_eq_True)
  show ?thesis
    by (simp add: remove_mask_duplicates_def example_L17_center zoom sz m nz)
qed

section \<open>Examples for the general lemmas\<close>

lemma remove_mask_duplicates_sound_example:
  "remove_mask_duplicates (KML_to_mask_globals(''zoom'' \<mapsto> IntVal 1, ''size'' \<mapsto> IntVal 2))
     even_odd_fill [example_L] = Inr [example_L, example_L] \<and>
   set [example_L, example_L] \<subseteq> set [example_L]"
proof -
  from remove_mask_duplicates_sound [OF small_first_polygon_repeated]
  have "set [example_L, example_L] \<subseteq> set [example_L]" by (rule conjunct1)
  with small_first_polygon_repeated show ?thesis by (rule conjI)
qed

lemma remove_masks_characterised_example:
  "remove_masks_with_ovelapping_pixels
     [(''lat_10.0005000_long_20.0005000_zoom_17_hill_0.png'', [[255, 0]]),
      (''lat_10.0005000_long_20.0005000_zoom_17_hill_1.png'', [[255, 255]]),
      (''lat_10.0060000_long_20.0005000_zoom_17_hill_0.png'', [[0, 255]])] =
   Inr {''lat_10.0005000_long_20.0005000_zoom_17_hill_0.png'',
        ''lat_10.0060000_long_20.0005000_zoom_17_hill_0.png''} \<and>
   loser (''lat_10.0005000_long_20.0005000_zoom_17_hill_0.png'', [[255, 0]])
         (''lat_10.0005000_long_20.0005000_zoom_17_hill_1.png'', [[255, 255]])
     = Some ''lat_10.0005000_long_20.0005000_zoom_17_hill_1.png'' \<and>
   ''lat_10.0005000_long_20.0005000_zoom_17_hill_1.png'' \<notin>
     {''lat_10.0005000_long_20.0005000_zoom_17_hill_0.png'',
      ''lat_10.0060000_long_20.0005000_zoom_17_hill_0.png''}"
proof -
  have l: "loser (''lat_10.0005000_long_20.0005000_zoom_17_hill_0.png'', [[255, 0]])
         (''lat_10.0005000_long_20.0005000_zoom_17_hill_1.png'', [[255, 255]])
     = Some ''lat_10.0005000_long_20.0005000_zoom_17_hill_1.png''"
    by (simp add: loser_def and_any_def broadcast_def example_names_2)
  have "''lat_10.0005000_long_20.0005000_zoom_17_hill_1.png'' \<notin>
     {''lat_10.0005000_long_20.0005000_zoom_17_hill_0.png'',
      ''lat_10.0060000_long_20.0005000_zoom_17_hill_0.png''}"
    unfolding remove_masks_characterised [OF example_dedup_run] using l by auto
  with example_dedup_run l show ?thesis by blast
qed

lemma str_gt_numeric_example:
  "length ''10'' = length ''09'' \<and> list_all is_digit ''10'' \<and> list_all is_digit ''09'' \<and>
   str_gt ''10'' ''09'' \<and> dec_val ''09'' < dec_val ''10''"
proof -
  have a: "length ''10'' = length ''09''" by simp
  have b: "list_all is_digit ''10''" "list_all is_digit ''09''"
    by (simp_all add: is_digit_def)
  have c: "dec_val ''09'' < dec_val ''10''" by (simp add: dec_val_def)
  from str_gt_numeric [OF a b] c have "str_gt ''10'' ''09''" by simp
  with a b c show ?thesis by simp
qed

lemma get_exact_map_lat_fuel_mono_example:
  "get_exact_map_lat 0 0 17 = Some (Inr (45 / 16384, 0)) \<and>
   get_exact_map_lat (0 + 5) 0 17 = Some (Inr (45 / 16384, 0))"
proof -
  have r: "get_exact_map_lat 0 0 17 = Some (Inr (45 / 16384, 0))"
    by (simp add: get_exact_map_lat_equator calc_c_zoom_17)
  from get_exact_map_lat_fuel_mono [OF r, of 5] r show ?thesis by (rule_tac conjI)
qed

end
